theory Spec2Isabelle
  imports Complex_Main "HOL-Library.Multiset"
begin

section \<open>The arrival scheduler of src/models/generator.py\<close>

text \<open>
  The module defines the class \<open>VehicleGenerator\<close> (constructor, \<open>generate_vehicle\<close>,
  \<open>run\<close>) and its subclass \<open>CustomVehicleGenerator\<close> (constructor, \<open>run\<close>).
  Python objects are records, attributes that a constructor may leave undefined are
  \<open>option\<close> fields, exceptions are values, and the mutable objects the methods touch
  (the generator itself, the SimPy environment, the state of the \<open>random\<close> module) are
  passed in and returned.

  Simulated time and delays are Python floats; they are modelled as \<open>real\<close>, so the
  sums below are exact sums. Counts and identifiers are Python integers: \<open>int\<close>.
\<close>

subsection \<open>Exceptions\<close>

datatype error =
  AttributeError string  \<comment> \<open>reading an attribute the object does not have\<close>
| ValueError real        \<comment> \<open>SimPy's \<open>Timeout\<close> refusing a negative delay\<close>

subsection \<open>The random module\<close>

text \<open>
  The state of Python's \<open>random\<close> module is a source of raw draws and a position in it.
  \<open>randbelow r n\<close> is \<open>Random._randbelow(n)\<close>: a number below \<open>n\<close>, and the state
  advanced.
\<close>

record rng =
  draws :: "nat \<Rightarrow> nat"
  pos :: nat

definition randbelow :: "rng \<Rightarrow> nat \<Rightarrow> nat \<times> rng" where
  "randbelow r n = (draws r (pos r) mod n, r\<lparr>pos := pos r + 1\<rparr>)"

text \<open>
  \<open>random.shuffle(x)\<close> of CPython:
  \<^verbatim>\<open>
  for i in reversed(range(1, len(x))):
      j = randbelow(i + 1)
      x[i], x[j] = x[j], x[i]
  \<close>
  \<open>shuffle_loop r i x\<close> runs the iterations \<open>i, i - 1, ..., 1\<close>.
\<close>

fun shuffle_loop :: "rng \<Rightarrow> nat \<Rightarrow> 'a list \<Rightarrow> 'a list \<times> rng" where
  "shuffle_loop r 0 x = (x, r)"
| "shuffle_loop r (Suc k) x =
     (case randbelow r (Suc k + 1) of
        (j, r') \<Rightarrow> shuffle_loop r' k (x[Suc k := x ! j, j := x ! Suc k]))"

definition shuffle :: "rng \<Rightarrow> 'a list \<Rightarrow> 'a list \<times> rng" where
  "shuffle r x = shuffle_loop r (length x - 1) x"

subsection \<open>Vehicles\<close>

text \<open>
  Modelled from the spec: the class \<open>Vehicle\<close> of src/models/vehicle.py is not among the
  sources. The spec describes an entity as constructible from an identity, a type, the
  pool handles and the event sink, and as exposing a lifecycle process that can be
  started. A vehicle is the record of its constructor's keyword arguments; the
  environment, the two resources and the logger are opaque handles.
\<close>

record ('e, 'p, 'l) vehicle =
  vid :: int
  vtype :: string
  v_env :: 'e
  v_parking_res :: 'p
  v_charger_res :: 'p
  v_logger :: 'l

definition Vehicle :: "int \<Rightarrow> string \<Rightarrow> 'e \<Rightarrow> 'p \<Rightarrow> 'p \<Rightarrow> 'l \<Rightarrow> ('e, 'p, 'l) vehicle" where
  "Vehicle i t e p c l =
     \<lparr>vid = i, vtype = t, v_env = e, v_parking_res = p, v_charger_res = c, v_logger = l\<rparr>"

subsection \<open>The environment\<close>

text \<open>
  What a generator's process can see and change outside the generator object: the
  clock of the SimPy environment, the delays it has waited for (in order), the vehicle
  processes it has registered, each with the time of registration (in order), and the
  state of the random module.

  The run of a generator is followed on its own: what the registered vehicle
  processes do while the generator is suspended is not part of generator.py.
\<close>

record ('e, 'p, 'l) world =
  now :: real
  timeouts :: "real list"
  started :: "(real \<times> ('e, 'p, 'l) vehicle) list"
  rand :: rng

text \<open>
  \<open>yield env.timeout(d)\<close>: SimPy's \<open>Timeout\<close> raises \<open>ValueError\<close> for a negative
  delay; otherwise the process resumes when the clock has advanced by \<open>d\<close>.
\<close>

definition env_timeout :: "('e, 'p, 'l) world \<Rightarrow> real \<Rightarrow> error + ('e, 'p, 'l) world" where
  "env_timeout w d =
     (if d < 0 then Inl (ValueError d)
      else Inr (w\<lparr>now := now w + d, timeouts := timeouts w @ [d]\<rparr>))"

text \<open>\<open>env.process(vehicle.process())\<close>: the process is registered, not run.\<close>

definition env_process :: "('e, 'p, 'l) world \<Rightarrow> ('e, 'p, 'l) vehicle \<Rightarrow> ('e, 'p, 'l) world" where
  "env_process w v = w\<lparr>started := started w @ [(now w, v)]\<rparr>"

subsection \<open>The generator object\<close>

text \<open>
  An interarrival sampler is a callable without arguments returning a float; it may
  draw from the random module, so it takes and returns that state.
\<close>

type_synonym sampler = "rng \<Rightarrow> real \<times> rng"

record ('e, 'p, 'l) gen =
  env :: 'e
  parking_res :: 'p
  charger_res :: 'p
  logger :: 'l
  next_id :: int
  interarrival_func :: "sampler option"
  normal_count :: "int option"
  ev_count :: "int option"

text \<open>
  \<open>VehicleGenerator.__init__\<close> sets five attributes; the other three stay undefined.
  The result is a sum so that a raise at construction would be a value \<open>Inl\<close>; the
  source has none.
\<close>

definition VehicleGenerator_init ::
  "'e \<Rightarrow> 'p \<Rightarrow> 'p \<Rightarrow> 'l \<Rightarrow> error + ('e, 'p, 'l) gen" where
  "VehicleGenerator_init e p c l =
     Inr \<lparr>env = e, parking_res = p, charger_res = c, logger = l, next_id = 0,
          interarrival_func = None, normal_count = None, ev_count = None\<rparr>"

text \<open>
  \<open>src.config\<close> and \<open>src.utils.helpers\<close> are not among the sources: the defaults
  \<open>NUM_NORMAL\<close>, \<open>NUM_EV\<close> and \<open>sample_interarrival\<close> are parameters.
\<close>

record config =
  NUM_NORMAL :: int
  NUM_EV :: int
  sample_interarrival :: sampler

text \<open>
  \<open>CustomVehicleGenerator.__init__\<close>; an argument \<open>None\<close> for a count stands for the
  argument left out.
\<close>

definition CustomVehicleGenerator_init ::
  "config \<Rightarrow> 'e \<Rightarrow> 'p \<Rightarrow> 'p \<Rightarrow> 'l \<Rightarrow> sampler option \<Rightarrow> int option \<Rightarrow> int option
     \<Rightarrow> error + ('e, 'p, 'l) gen" where
  "CustomVehicleGenerator_init cfg e p c l f n m =
     (case VehicleGenerator_init e p c l of
        Inl err \<Rightarrow> Inl err
      | Inr self \<Rightarrow>
          Inr (self\<lparr>interarrival_func :=
                      Some (case f of Some g \<Rightarrow> g | None \<Rightarrow> sample_interarrival cfg),
                    normal_count := Some (case n of Some k \<Rightarrow> k | None \<Rightarrow> NUM_NORMAL cfg),
                    ev_count := Some (case m of Some k \<Rightarrow> k | None \<Rightarrow> NUM_EV cfg)\<rparr>))"

text \<open>\<open>generate_vehicle\<close>: build the vehicle, advance \<open>next_id\<close>, register the process.\<close>

definition generate_vehicle ::
  "('e, 'p, 'l) gen \<Rightarrow> ('e, 'p, 'l) world \<Rightarrow> string
     \<Rightarrow> ('e, 'p, 'l) gen \<times> ('e, 'p, 'l) world" where
  "generate_vehicle self w t =
     (let vehicle = Vehicle (next_id self) t (env self) (parking_res self)
                      (charger_res self) (logger self);
          self' = self\<lparr>next_id := next_id self + 1\<rparr>
      in (self', env_process w vehicle))"

text \<open>
  The loop of \<open>VehicleGenerator.run\<close> over the shuffled types. The result is the
  exception that ended it, if any, with the generator and the world as they are then.
\<close>

fun VehicleGenerator_run_loop ::
  "('e, 'p, 'l) gen \<Rightarrow> ('e, 'p, 'l) world \<Rightarrow> string list
     \<Rightarrow> error option \<times> ('e, 'p, 'l) gen \<times> ('e, 'p, 'l) world" where
  "VehicleGenerator_run_loop self w [] = (None, self, w)"
| "VehicleGenerator_run_loop self w (t # ts) =
     (case interarrival_func self of
        None \<Rightarrow> (Some (AttributeError ''interarrival_func''), self, w)
      | Some f \<Rightarrow>
          (case f (rand w) of
             (d, r') \<Rightarrow>
               (case env_timeout (w\<lparr>rand := r'\<rparr>) d of
                  Inl err \<Rightarrow> (Some err, self, w\<lparr>rand := r'\<rparr>)
                | Inr w' \<Rightarrow>
                    (case generate_vehicle self w' t of
                       (self', w'') \<Rightarrow> VehicleGenerator_run_loop self' w'' ts))))"

text \<open>
  \<open>VehicleGenerator.run\<close>, driven to its end. \<open>["normal"] * n\<close> is the empty list
  for a negative \<open>n\<close>, as \<open>replicate (nat n)\<close> is.
\<close>

definition VehicleGenerator_run ::
  "('e, 'p, 'l) gen \<Rightarrow> ('e, 'p, 'l) world
     \<Rightarrow> error option \<times> ('e, 'p, 'l) gen \<times> ('e, 'p, 'l) world" where
  "VehicleGenerator_run self w =
     (case normal_count self of
        None \<Rightarrow> (Some (AttributeError ''normal_count''), self, w)
      | Some n \<Rightarrow>
          (case ev_count self of
             None \<Rightarrow> (Some (AttributeError ''ev_count''), self, w)
           | Some m \<Rightarrow>
               (let total_vehicles = n + m;
                    vehicle_types = replicate (nat n) ''normal'' @ replicate (nat m) ''ev''
                in case shuffle (rand w) vehicle_types of
                     (vehicle_types', r') \<Rightarrow>
                       VehicleGenerator_run_loop self (w\<lparr>rand := r'\<rparr>) vehicle_types')))"

text \<open>The loop and the body of \<open>CustomVehicleGenerator.run\<close>, lines 107 to 119.\<close>

fun CustomVehicleGenerator_run_loop ::
  "('e, 'p, 'l) gen \<Rightarrow> ('e, 'p, 'l) world \<Rightarrow> string list
     \<Rightarrow> error option \<times> ('e, 'p, 'l) gen \<times> ('e, 'p, 'l) world" where
  "CustomVehicleGenerator_run_loop self w [] = (None, self, w)"
| "CustomVehicleGenerator_run_loop self w (t # ts) =
     (case interarrival_func self of
        None \<Rightarrow> (Some (AttributeError ''interarrival_func''), self, w)
      | Some f \<Rightarrow>
          (case f (rand w) of
             (d, r') \<Rightarrow>
               (case env_timeout (w\<lparr>rand := r'\<rparr>) d of
                  Inl err \<Rightarrow> (Some err, self, w\<lparr>rand := r'\<rparr>)
                | Inr w' \<Rightarrow>
                    (case generate_vehicle self w' t of
                       (self', w'') \<Rightarrow> CustomVehicleGenerator_run_loop self' w'' ts))))"

definition CustomVehicleGenerator_run ::
  "('e, 'p, 'l) gen \<Rightarrow> ('e, 'p, 'l) world
     \<Rightarrow> error option \<times> ('e, 'p, 'l) gen \<times> ('e, 'p, 'l) world" where
  "CustomVehicleGenerator_run self w =
     (case normal_count self of
        None \<Rightarrow> (Some (AttributeError ''normal_count''), self, w)
      | Some n \<Rightarrow>
          (case ev_count self of
             None \<Rightarrow> (Some (AttributeError ''ev_count''), self, w)
           | Some m \<Rightarrow>
               (let total_vehicles = n + m;
                    vehicle_types = replicate (nat n) ''normal'' @ replicate (nat m) ''ev''
                in case shuffle (rand w) vehicle_types of
                     (vehicle_types', r') \<Rightarrow>
                       CustomVehicleGenerator_run_loop self (w\<lparr>rand := r'\<rparr>) vehicle_types')))"

subsection \<open>Notions used to state the properties\<close>

text \<open>
  The vehicle processes registered, and the delays waited for, between a world \<open>w\<close>
  and a later world \<open>w'\<close>.
\<close>

definition spawned ::
  "('e, 'p, 'l) world \<Rightarrow> ('e, 'p, 'l) world \<Rightarrow> (real \<times> ('e, 'p, 'l) vehicle) list" where
  "spawned w w' = drop (length (started w)) (started w')"

definition delays :: "('e, 'p, 'l) world \<Rightarrow> ('e, 'p, 'l) world \<Rightarrow> real list" where
  "delays w w' = drop (length (timeouts w)) (timeouts w')"

text \<open>The delays that \<open>k\<close> successive calls of a sampler return, from the random state \<open>r\<close>.\<close>

fun sampled :: "sampler \<Rightarrow> rng \<Rightarrow> nat \<Rightarrow> real list" where
  "sampled f r 0 = []"
| "sampled f r (Suc k) = (case f r of (d, r') \<Rightarrow> d # sampled f r' k)"

text \<open>The list of types that \<open>run\<close> builds before it shuffles it.\<close>

definition plan :: "int \<Rightarrow> int \<Rightarrow> string list" where
  "plan n m = replicate (nat n) ''normal'' @ replicate (nat m) ''ev''"

text \<open>
  A caller's sequence of operations on one generator: direct calls of
  \<open>generate_vehicle\<close> and runs; an exception that ends a run leaves the objects as
  they are, and the caller goes on.
\<close>

datatype op = Spawn string | Run

fun run_ops ::
  "('e, 'p, 'l) gen \<Rightarrow> ('e, 'p, 'l) world \<Rightarrow> op list
     \<Rightarrow> ('e, 'p, 'l) gen \<times> ('e, 'p, 'l) world" where
  "run_ops g w [] = (g, w)"
| "run_ops g w (Spawn t # os) =
     (case generate_vehicle g w t of (g', w') \<Rightarrow> run_ops g' w' os)"
| "run_ops g w (Run # os) =
     (case CustomVehicleGenerator_run g w of (out, g', w') \<Rightarrow> run_ops g' w' os)"

text \<open>Replacing the opaque handles of a vehicle, a generator and a world.\<close>

definition rename_vehicle ::
  "('e \<Rightarrow> 'e2) \<Rightarrow> ('p \<Rightarrow> 'p2) \<Rightarrow> ('l \<Rightarrow> 'l2) \<Rightarrow> ('e, 'p, 'l) vehicle
     \<Rightarrow> ('e2, 'p2, 'l2) vehicle" where
  "rename_vehicle fe fp fl v =
     \<lparr>vid = vid v, vtype = vtype v, v_env = fe (v_env v),
      v_parking_res = fp (v_parking_res v), v_charger_res = fp (v_charger_res v),
      v_logger = fl (v_logger v)\<rparr>"

definition rename_gen ::
  "('e \<Rightarrow> 'e2) \<Rightarrow> ('p \<Rightarrow> 'p2) \<Rightarrow> ('l \<Rightarrow> 'l2) \<Rightarrow> ('e, 'p, 'l) gen \<Rightarrow> ('e2, 'p2, 'l2) gen" where
  "rename_gen fe fp fl g =
     \<lparr>env = fe (env g), parking_res = fp (parking_res g), charger_res = fp (charger_res g),
      logger = fl (logger g), next_id = next_id g,
      interarrival_func = interarrival_func g, normal_count = normal_count g,
      ev_count = ev_count g\<rparr>"

definition rename_world ::
  "('e \<Rightarrow> 'e2) \<Rightarrow> ('p \<Rightarrow> 'p2) \<Rightarrow> ('l \<Rightarrow> 'l2) \<Rightarrow> ('e, 'p, 'l) world
     \<Rightarrow> ('e2, 'p2, 'l2) world" where
  "rename_world fe fp fl w =
     \<lparr>now = now w, timeouts = timeouts w,
      started = map (\<lambda>(t, v). (t, rename_vehicle fe fp fl v)) (started w),
      rand = rand w\<rparr>"

text \<open>Concrete inputs: a sampler that always returns \<open>d\<close>, a random state, a world.\<close>

definition constant_sampler :: "real \<Rightarrow> sampler" where
  "constant_sampler d r = (d, r)"

definition zero_draws :: "nat \<Rightarrow> nat" where
  "zero_draws i = 0"

definition seed0 :: rng where
  "seed0 = \<lparr>draws = zero_draws, pos = 0\<rparr>"

definition world0 :: "(unit, unit, unit) world" where
  "world0 = \<lparr>now = 0, timeouts = [], started = [], rand = seed0\<rparr>"

definition config0 :: config where
  "config0 = \<lparr>NUM_NORMAL = 3, NUM_EV = 2, sample_interarrival = constant_sampler 1\<rparr>"

definition gen0 :: "sampler \<Rightarrow> int \<Rightarrow> int \<Rightarrow> (unit, unit, unit) gen" where
  "gen0 f n m =
     \<lparr>env = (), parking_res = (), charger_res = (), logger = (), next_id = 0,
      interarrival_func = Some f, normal_count = Some n, ev_count = Some m\<rparr>"

text \<open>
  A sampler that draws from the random state and whose delays fall by one with every
  draw made: 3, 2, 1, 0, -1, ...
\<close>

definition falling_sampler :: sampler where
  "falling_sampler r = (3 - real (pos r), r\<lparr>pos := pos r + 1\<rparr>)"

text \<open>A vehicle carries the handles of the generator that built it.\<close>

definition passed_through :: "('e, 'p, 'l) gen \<Rightarrow> ('e, 'p, 'l) vehicle \<Rightarrow> bool" where
  "passed_through g v \<longleftrightarrow>
     v_env v = env g \<and> v_parking_res v = parking_res g
     \<and> v_charger_res v = charger_res g \<and> v_logger v = logger g"

text \<open>A generator and a world whose handles are numbers, to tell them apart.\<close>

definition gen1 :: "(nat, nat, nat) gen" where
  "gen1 =
     \<lparr>env = 1, parking_res = 2, charger_res = 3, logger = 4, next_id = 0,
      interarrival_func = Some (constant_sampler 1), normal_count = Some 1,
      ev_count = Some 1\<rparr>"

definition world1 :: "(nat, nat, nat) world" where
  "world1 = \<lparr>now = 0, timeouts = [], started = [], rand = seed0\<rparr>"

section \<open>Properties\<close>

subsection \<open>Auxiliary facts about the loops\<close>

lemma run_loops_agree:
  "CustomVehicleGenerator_run_loop self w ts = VehicleGenerator_run_loop self w ts"
  by (induction ts arbitrary: self w) (auto split: option.splits prod.splits sum.splits)

lemma loop_step_ok:
  assumes "interarrival_func g = Some f" "f (rand w) = (d, r')" "0 \<le> d"
  shows "CustomVehicleGenerator_run_loop g w (t # ts) =
           CustomVehicleGenerator_run_loop (g\<lparr>next_id := next_id g + 1\<rparr>)
             (w\<lparr>rand := r', now := now w + d, timeouts := timeouts w @ [d],
                started := started w @
                  [(now w + d, Vehicle (next_id g) t (env g) (parking_res g) (charger_res g) (logger g))]\<rparr>) ts"
  using assms by (simp add: env_timeout_def generate_vehicle_def env_process_def Let_def)

lemma loop_step_neg:
  assumes "interarrival_func g = Some f" "f (rand w) = (d, r')" "d < 0"
  shows "CustomVehicleGenerator_run_loop g w (t # ts) = (Some (ValueError d), g, w\<lparr>rand := r'\<rparr>)"
  using assms by (simp add: env_timeout_def)

lemma loop_step_noattr:
  assumes "interarrival_func g = None"
  shows "CustomVehicleGenerator_run_loop g w (t # ts) = (Some (AttributeError ''interarrival_func''), g, w)"
  using assms by simp

lemma loop_inv:
  "CustomVehicleGenerator_run_loop g w ts = (out, g', w') \<Longrightarrow>
   \<exists>ds. length ds \<le> length ts
     \<and> g' = g\<lparr>next_id := next_id g + int (length ds)\<rparr>
     \<and> (\<forall>d\<in>set ds. 0 \<le> d)
     \<and> timeouts w' = timeouts w @ ds
     \<and> now w' = now w + sum_list ds
     \<and> started w' = started w @
          map (\<lambda>i. (now w + sum_list (take (Suc i) ds),
                    Vehicle (next_id g + int i) (ts ! i) (env g) (parking_res g) (charger_res g) (logger g)))
            [0..<length ds]
     \<and> (out = None \<longrightarrow> length ds = length ts)"
proof (induction ts arbitrary: g w)
  case Nil
  then show ?case by auto
next
  case (Cons t ts)
  show ?case
  proof (cases "interarrival_func g")
    case None
    with Cons.prems show ?thesis
      by (intro exI[of _ "[]"]) auto
  next
    case (Some f)
    obtain d r' where fr: "f (rand w) = (d, r')" by (cases "f (rand w)")
    show ?thesis
    proof (cases "d < 0")
      case True
      with Cons.prems Some fr show ?thesis
        by (intro exI[of _ "[]"]) (auto simp: env_timeout_def)
    next
      case False
      define g1 where "g1 = g\<lparr>next_id := next_id g + 1\<rparr>"
      define w1 where "w1 = w\<lparr>rand := r', now := now w + d, timeouts := timeouts w @ [d],
                started := started w @
                  [(now w + d, Vehicle (next_id g) t (env g) (parking_res g) (charger_res g) (logger g))]\<rparr>"
      from False have "0 \<le> d" by simp
      from loop_step_ok[OF Some fr this, of t ts] Cons.prems
      have "CustomVehicleGenerator_run_loop g1 w1 ts = (out, g', w')"
        by (simp add: g1_def w1_def)
      from Cons.IH[OF this] obtain ds where
        len: "length ds \<le> length ts"
        and g': "g' = g1\<lparr>next_id := next_id g1 + int (length ds)\<rparr>"
        and nn: "\<forall>d\<in>set ds. 0 \<le> d"
        and to: "timeouts w' = timeouts w1 @ ds"
        and nw: "now w' = now w1 + sum_list ds"
        and st: "started w' = started w1 @
          map (\<lambda>i. (now w1 + sum_list (take (Suc i) ds),
                    Vehicle (next_id g1 + int i) (ts ! i) (env g1) (parking_res g1) (charger_res g1) (logger g1)))
            [0..<length ds]"
        and out: "out = None \<longrightarrow> length ds = length ts"
        by blast
      show ?thesis
      proof (intro exI[of _ "d # ds"] conjI)
        show "length (d # ds) \<le> length (t # ts)" using len by simp
        show "g' = g\<lparr>next_id := next_id g + int (length (d # ds))\<rparr>"
          using g' by (simp add: g1_def)
        show "\<forall>x\<in>set (d # ds). 0 \<le> x" using nn \<open>0 \<le> d\<close> by simp
        show "timeouts w' = timeouts w @ d # ds" using to by (simp add: w1_def)
        show "now w' = now w + sum_list (d # ds)" using nw by (simp add: w1_def)
        show "out = None \<longrightarrow> length (d # ds) = length (t # ts)" using out by simp
        have "map (\<lambda>i. (now w + sum_list (take (Suc i) (d # ds)),
                    Vehicle (next_id g + int i) ((t # ts) ! i) (env g) (parking_res g) (charger_res g) (logger g)))
            [0..<length (d # ds)]
          = (now w + d, Vehicle (next_id g) t (env g) (parking_res g) (charger_res g) (logger g)) #
            map (\<lambda>i. (now w1 + sum_list (take (Suc i) ds),
                    Vehicle (next_id g1 + int i) (ts ! i) (env g1) (parking_res g1) (charger_res g1) (logger g1)))
            [0..<length ds]"
          by (simp add: map_upt_Suc g1_def w1_def add.assoc del: upt_Suc)
        then show "started w' = started w @
          map (\<lambda>i. (now w + sum_list (take (Suc i) (d # ds)),
                    Vehicle (next_id g + int i) ((t # ts) ! i) (env g) (parking_res g) (charger_res g) (logger g)))
            [0..<length (d # ds)]"
          using st by (simp add: w1_def)
      qed
    qed
  qed
qed


lemma shuffle_loop_mset:
  "k < length x \<or> k = 0 \<Longrightarrow> mset (fst (shuffle_loop r k x)) = mset x"
proof (induction k arbitrary: r x)
  case 0
  then show ?case by simp
next
  case (Suc k)
  then have lt: "Suc k < length x" by simp
  define j where "j = draws r (pos r) mod (Suc k + 1)"
  have j: "j < length x" using lt unfolding j_def
    by (metis Suc_eq_plus1 Suc_lessD less_Suc_eq_le less_le_trans mod_less_divisor not_less zero_less_Suc)
  let ?x' = "x[Suc k := x ! j, j := x ! Suc k]"
  have "mset ?x' = mset x" using mset_swap[OF j lt] by simp
  moreover have "k < length ?x' \<or> k = 0" using lt by simp
  ultimately show ?case using Suc.IH[of ?x']
    by (simp add: randbelow_def j_def)
qed

lemma shuffle_mset: "mset (fst (shuffle r x)) = mset x"
  unfolding shuffle_def by (rule shuffle_loop_mset) (cases x; simp)

lemma shuffle_Nil: "shuffle r [] = ([], r)"
  by (simp add: shuffle_def)

lemma run_unfold:
  assumes "normal_count g = Some n" "ev_count g = Some m"
  shows "CustomVehicleGenerator_run g w =
           CustomVehicleGenerator_run_loop g (w\<lparr>rand := snd (shuffle (rand w) (plan n m))\<rparr>)
             (fst (shuffle (rand w) (plan n m)))"
  using assms by (simp add: CustomVehicleGenerator_run_def plan_def split: prod.split)

lemma init_eq:
  "CustomVehicleGenerator_init cfg e p c l f (Some n) (Some m) = Inr g \<longleftrightarrow>
     g = \<lparr>env = e, parking_res = p, charger_res = c, logger = l, next_id = 0,
          interarrival_func = Some (case f of Some h \<Rightarrow> h | None \<Rightarrow> sample_interarrival cfg),
          normal_count = Some n, ev_count = Some m\<rparr>"
  by (auto simp: CustomVehicleGenerator_init_def VehicleGenerator_init_def)

lemma loop_delays:
  "interarrival_func g = Some f \<Longrightarrow>
   CustomVehicleGenerator_run_loop g w ts = (out, g', w') \<Longrightarrow>
   timeouts w' = timeouts w @ takeWhile (\<lambda>d. 0 \<le> d) (sampled f (rand w) (length ts))
   \<and> out = (case dropWhile (\<lambda>d. 0 \<le> d) (sampled f (rand w) (length ts)) of
              [] \<Rightarrow> None | d # _ \<Rightarrow> Some (ValueError d))"
proof (induction ts arbitrary: g w)
  case Nil
  then show ?case by simp
next
  case (Cons t ts)
  obtain d r' where fr: "f (rand w) = (d, r')" by (cases "f (rand w)")
  show ?case
  proof (cases "d < 0")
    case True
    from loop_step_neg[OF Cons.prems(1) fr True, of t ts] Cons.prems(2)
    have "out = Some (ValueError d)" "w' = w\<lparr>rand := r'\<rparr>" by simp_all
    with fr True show ?thesis by simp
  next
    case False
    then have d: "0 \<le> d" by simp
    let ?g1 = "g\<lparr>next_id := next_id g + 1\<rparr>"
    let ?w1 = "w\<lparr>rand := r', now := now w + d, timeouts := timeouts w @ [d],
                started := started w @
                  [(now w + d, Vehicle (next_id g) t (env g) (parking_res g) (charger_res g) (logger g))]\<rparr>"
    have run1: "CustomVehicleGenerator_run_loop ?g1 ?w1 ts = (out, g', w')"
      using loop_step_ok[OF Cons.prems(1) fr d, of t ts] Cons.prems(2) by simp
    have "interarrival_func ?g1 = Some f" using Cons.prems(1) by simp
    from Cons.IH[OF this run1] show ?thesis
      using fr d by simp
  qed
qed

lemma run_inv:
  assumes "normal_count g = Some n" "ev_count g = Some m"
    and "CustomVehicleGenerator_run g w = (out, g', w')"
  shows "\<exists>ts ds. ts = fst (shuffle (rand w) (plan n m))
     \<and> length ds \<le> length ts
     \<and> g' = g\<lparr>next_id := next_id g + int (length ds)\<rparr>
     \<and> (\<forall>d\<in>set ds. 0 \<le> d)
     \<and> timeouts w' = timeouts w @ ds
     \<and> now w' = now w + sum_list ds
     \<and> started w' = started w @
          map (\<lambda>i. (now w + sum_list (take (Suc i) ds),
                    Vehicle (next_id g + int i) (ts ! i) (env g) (parking_res g) (charger_res g) (logger g)))
            [0..<length ds]
     \<and> (out = None \<longrightarrow> length ds = length ts)"
proof -
  let ?ts = "fst (shuffle (rand w) (plan n m))"
  let ?w0 = "w\<lparr>rand := snd (shuffle (rand w) (plan n m))\<rparr>"
  have "CustomVehicleGenerator_run_loop g ?w0 ?ts = (out, g', w')"
    using assms by (simp add: run_unfold)
  from loop_inv[OF this] show ?thesis by simp
qed

lemma shuffled_plan_mset: "mset (fst (shuffle r (plan n m))) = mset (plan n m)"
  by (rule shuffle_mset)

lemma shuffled_plan_length: "length (fst (shuffle r (plan n m))) = nat n + nat m"
proof -
  have "size (mset (fst (shuffle r (plan n m)))) = size (mset (plan n m))"
    by (simp add: shuffle_mset)
  then show ?thesis by (simp add: plan_def)
qed

lemma run_delays:
  assumes "normal_count g = Some n" "ev_count g = Some m" "interarrival_func g = Some f"
    and "CustomVehicleGenerator_run g w = (out, g', w')"
  shows "delays w w' = takeWhile (\<lambda>d. 0 \<le> d)
            (sampled f (snd (shuffle (rand w) (plan n m))) (nat n + nat m))"
    and "out = (case dropWhile (\<lambda>d. 0 \<le> d)
                  (sampled f (snd (shuffle (rand w) (plan n m))) (nat n + nat m)) of
              [] \<Rightarrow> None | d # _ \<Rightarrow> Some (ValueError d))"
proof -
  let ?ts = "fst (shuffle (rand w) (plan n m))"
  let ?w0 = "w\<lparr>rand := snd (shuffle (rand w) (plan n m))\<rparr>"
  have "CustomVehicleGenerator_run_loop g ?w0 ?ts = (out, g', w')"
    using assms by (simp add: run_unfold)
  from loop_delays[OF assms(3) this]
  show "delays w w' = takeWhile (\<lambda>d. 0 \<le> d)
            (sampled f (snd (shuffle (rand w) (plan n m))) (nat n + nat m))"
    and "out = (case dropWhile (\<lambda>d. 0 \<le> d)
                  (sampled f (snd (shuffle (rand w) (plan n m))) (nat n + nat m)) of
              [] \<Rightarrow> None | d # _ \<Rightarrow> Some (ValueError d))"
    by (simp_all add: delays_def shuffled_plan_length)
qed

lemma map_int_upt: "map int [0..<k] = [0..int k - 1]"
proof (induction k)
  case 0
  then show ?case by simp
next
  case (Suc k)
  have "[0..int (Suc k) - 1] = [0..int k - 1] @ [int k]"
    using upto_rec2[of 0 "int k"] by simp
  with Suc show ?case by simp
qed

lemma count_plan:
  "count (mset (plan n m)) ''normal'' = nat n" "count (mset (plan n m)) ''ev'' = nat m"
  by (simp_all add: plan_def)

subsection \<open>The claims\<close>

text \<open>
  Claim C6. With \<open>normal_count = 0\<close> and \<open>ev_count = 0\<close> a run of a constructed
  generator ends without an exception and leaves the generator and the world as they
  were: no vehicle is registered, no delay is waited for, the clock and the random
  state are untouched (the sampler is never called).
\<close>

theorem zero_counts_run_is_noop:
  "\<exists>g. CustomVehicleGenerator_init cfg e p c l f (Some 0) (Some 0) = Inr g
       \<and> CustomVehicleGenerator_run g w = (None, g, w)"
  by (simp add: init_eq run_unfold plan_def shuffle_Nil)

text \<open>
  Claim C7. \<open>CustomVehicleGenerator.run\<close> and \<open>VehicleGenerator.run\<close> compute the same
  result on every generator and every world: the same exception or none, the same
  generator and the same world afterwards (hence the same plan, the same delays and
  the same vehicles).
\<close>

theorem custom_run_equals_base_run:
  "CustomVehicleGenerator_run self w = VehicleGenerator_run self w"
  by (simp add: CustomVehicleGenerator_run_def VehicleGenerator_run_def run_loops_agree
        split: option.split prod.split)

text \<open>
  Claim C8. A generator built by the constructor of \<open>VehicleGenerator\<close> alone has none
  of the attributes \<open>normal_count\<close>, \<open>ev_count\<close> and \<open>interarrival_func\<close>, and its
  \<open>run\<close> ends at once with an \<open>AttributeError\<close> for \<open>normal_count\<close>, the generator and
  the world unchanged.
\<close>

theorem base_instance_run_fails:
  "\<exists>g. VehicleGenerator_init e p c l = Inr g
       \<and> normal_count g = None \<and> ev_count g = None \<and> interarrival_func g = None
       \<and> VehicleGenerator_run g w = (Some (AttributeError ''normal_count''), g, w)"
  by (simp add: VehicleGenerator_init_def VehicleGenerator_run_def)

text \<open>
  Claim C1. For counts \<open>n, m \<ge> 0\<close>, a run of a constructed generator that ends
  without an exception registers exactly \<open>n + m\<close> vehicles, \<open>n\<close> of type "normal" and
  \<open>m\<close> of type "ev", whatever the random state (hence whatever the shuffle does): the
  types registered are a permutation of the list built from the counts.
\<close>

theorem run_spawns_configured_types:
  assumes "0 \<le> n" "0 \<le> m"
    and "CustomVehicleGenerator_init cfg e p c l f (Some n) (Some m) = Inr g"
    and "CustomVehicleGenerator_run g w = (None, g', w')"
  shows "int (length (spawned w w')) = n + m
     \<and> int (length (filter (\<lambda>x. vtype (snd x) = ''normal'') (spawned w w'))) = n
     \<and> int (length (filter (\<lambda>x. vtype (snd x) = ''ev'') (spawned w w'))) = m
     \<and> mset (map (vtype \<circ> snd) (spawned w w')) = mset (plan n m)"
proof -
  from assms(3) have nc: "normal_count g = Some n" and ec: "ev_count g = Some m"
    by (simp_all add: init_eq)
  define ts where "ts = fst (shuffle (rand w) (plan n m))"
  from run_inv[OF nc ec assms(4)] obtain ds where
    len: "length ds = length ts"
    and st: "started w' = started w @
          map (\<lambda>i. (now w + sum_list (take (Suc i) ds),
                    Vehicle (next_id g + int i) (ts ! i) (env g) (parking_res g) (charger_res g) (logger g)))
            [0..<length ds]"
    unfolding ts_def by auto
  have types: "map (vtype \<circ> snd) (spawned w w') = ts"
    using st len by (simp add: spawned_def Vehicle_def comp_def map_nth)
  have ms: "mset ts = mset (plan n m)" unfolding ts_def by (rule shuffled_plan_mset)
  have l: "length (spawned w w') = nat n + nat m"
    using types shuffled_plan_length[of "rand w" n m] unfolding ts_def
    by (metis length_map)
  have f1: "length (filter (\<lambda>x. vtype (snd x) = t) (spawned w w')) = count (mset (plan n m)) t" for t
  proof -
    have "length (filter (\<lambda>x. vtype (snd x) = t) (spawned w w'))
            = length (filter (\<lambda>y. y = t) (map (vtype \<circ> snd) (spawned w w')))"
      by (simp add: filter_map comp_def)
    also have "\<dots> = count (mset ts) t"
    proof -
      have "(\<lambda>y. y = t) = ((=) t)" by auto
      then show ?thesis
        unfolding types by (simp add: count_mset count_list_eq_length_filter)
    qed
    finally show ?thesis using ms by simp
  qed
  show ?thesis using l f1 types ms assms(1,2) by (simp add: count_plan)
qed

theorem run_spawns_configured_types_witness:
  "(0::int) \<le> 2 \<and> (0::int) \<le> 1
   \<and> CustomVehicleGenerator_init config0 () () () () (Some (constant_sampler 1)) (Some 2) (Some 1)
       = Inr (gen0 (constant_sampler 1) 2 1)
   \<and> fst (CustomVehicleGenerator_run (gen0 (constant_sampler 1) 2 1) world0) = None
   \<and> length (spawned world0 (snd (snd (CustomVehicleGenerator_run (gen0 (constant_sampler 1) 2 1) world0)))) = 3
   \<and> length (filter (\<lambda>x. vtype (snd x) = ''normal'')
        (spawned world0 (snd (snd (CustomVehicleGenerator_run (gen0 (constant_sampler 1) 2 1) world0))))) = 2
   \<and> length (filter (\<lambda>x. vtype (snd x) = ''ev'')
        (spawned world0 (snd (snd (CustomVehicleGenerator_run (gen0 (constant_sampler 1) 2 1) world0))))) = 1"
proof -
  let ?g = "gen0 (constant_sampler 1) 2 1"
  let ?r = "CustomVehicleGenerator_run ?g world0"
  have h3: "CustomVehicleGenerator_init config0 () () () () (Some (constant_sampler 1)) (Some 2) (Some 1)
       = Inr ?g" by (simp add: init_eq gen0_def)
  have h4: "fst ?r = None" by code_simp
  then have h5: "?r = (None, fst (snd ?r), snd (snd ?r))"
    by (metis prod.collapse)
  from run_spawns_configured_types[OF _ _ h3 h5] h3 h4 show ?thesis by simp
qed

lemma spawned_append: "started w' = started w @ new \<Longrightarrow> spawned w w' = new"
  by (simp add: spawned_def)

lemma delays_append: "timeouts w' = timeouts w @ ds \<Longrightarrow> delays w w' = ds"
  by (simp add: delays_def)

lemma generate_vehicle_eq:
  "generate_vehicle s v t =
     (s\<lparr>next_id := next_id s + 1\<rparr>,
      v\<lparr>started := started v @
           [(now v, Vehicle (next_id s) t (env s) (parking_res s) (charger_res s) (logger s))]\<rparr>)"
  by (simp add: generate_vehicle_def env_process_def Let_def)

text \<open>
  Claim C2. In a run of a constructed generator that ends without an exception, with
  counts \<open>n, m \<ge> 0\<close>, the identifiers of the vehicles registered are, in order of
  registration, \<open>0, 1, ..., n + m - 1\<close>, each once. Every call of \<open>generate_vehicle\<close>
  advances \<open>next_id\<close> by one, and two calls in a row on any generator register two
  vehicles with the identifiers \<open>next_id\<close> and \<open>next_id + 1\<close>, at the same clock time
  and with no delay waited for.
\<close>

theorem identifiers_consecutive:
  assumes "0 \<le> n" "0 \<le> m"
    and "CustomVehicleGenerator_init cfg e p c l f (Some n) (Some m) = Inr g"
    and "CustomVehicleGenerator_run g w = (None, g', w')"
  shows "map (vid \<circ> snd) (spawned w w') = [0..n + m - 1]
     \<and> distinct (map (vid \<circ> snd) (spawned w w'))
     \<and> next_id g' = n + m
     \<and> next_id (fst (generate_vehicle s v t)) = next_id s + 1
     \<and> (case generate_vehicle s v t1 of
          (s1, v1) \<Rightarrow>
            (case generate_vehicle s1 v1 t2 of
               (s2, v2) \<Rightarrow>
                 map (vid \<circ> snd) (spawned v v2) = [next_id s, next_id s + 1]
                 \<and> map fst (spawned v v2) = [now v, now v]
                 \<and> delays v v2 = []
                 \<and> next_id s2 = next_id s + 2))"
proof -
  from assms(3) have nc: "normal_count g = Some n" and ec: "ev_count g = Some m"
    and id0: "next_id g = 0"
    by (simp_all add: init_eq)
  define ts where "ts = fst (shuffle (rand w) (plan n m))"
  from run_inv[OF nc ec assms(4)] obtain ds where
    len: "length ds = length ts"
    and g': "g' = g\<lparr>next_id := next_id g + int (length ds)\<rparr>"
    and st: "started w' = started w @
          map (\<lambda>i. (now w + sum_list (take (Suc i) ds),
                    Vehicle (next_id g + int i) (ts ! i) (env g) (parking_res g) (charger_res g) (logger g)))
            [0..<length ds]"
    unfolding ts_def by auto
  have k: "length ds = nat n + nat m"
    using len shuffled_plan_length[of "rand w" n m] by (simp add: ts_def)
  have "map (vid \<circ> snd) (spawned w w') = map int [0..<length ds]"
    unfolding spawned_append[OF st] by (simp add: Vehicle_def comp_def id0)
  also have "\<dots> = [0..n + m - 1]"
    using assms(1,2) by (simp add: map_int_upt k)
  finally have ids: "map (vid \<circ> snd) (spawned w w') = [0..n + m - 1]" .
  have nid: "next_id g' = n + m" using g' id0 k assms(1,2) by simp
  have two: "(case generate_vehicle s v t1 of
          (s1, v1) \<Rightarrow>
            (case generate_vehicle s1 v1 t2 of
               (s2, v2) \<Rightarrow>
                 map (vid \<circ> snd) (spawned v v2) = [next_id s, next_id s + 1]
                 \<and> map fst (spawned v v2) = [now v, now v]
                 \<and> delays v v2 = []
                 \<and> next_id s2 = next_id s + 2))"
    by (simp add: generate_vehicle_eq spawned_def delays_def Vehicle_def)
  have one: "next_id (fst (generate_vehicle s v t)) = next_id s + 1"
    by (simp add: generate_vehicle_eq)
  show ?thesis using ids nid one two by (simp only: distinct_upto simp_thms)
qed

theorem identifiers_consecutive_witness:
  "(0::int) \<le> 2 \<and> (0::int) \<le> 1
   \<and> CustomVehicleGenerator_init config0 () () () () (Some (constant_sampler 1)) (Some 2) (Some 1)
       = Inr (gen0 (constant_sampler 1) 2 1)
   \<and> fst (CustomVehicleGenerator_run (gen0 (constant_sampler 1) 2 1) world0) = None
   \<and> map (vid \<circ> snd)
        (spawned world0 (snd (snd (CustomVehicleGenerator_run (gen0 (constant_sampler 1) 2 1) world0))))
       = [0, 1, 2]"
proof -
  let ?g = "gen0 (constant_sampler 1) 2 1"
  let ?r = "CustomVehicleGenerator_run ?g world0"
  have h3: "CustomVehicleGenerator_init config0 () () () () (Some (constant_sampler 1)) (Some 2) (Some 1)
       = Inr ?g" by (simp add: init_eq gen0_def)
  have h4: "fst ?r = None" by code_simp
  then have h5: "?r = (None, fst (snd ?r), snd (snd ?r))"
    by (metis prod.collapse)
  have u: "[0..(2::int)] = [0, 1, 2]" by code_simp
  have h1: "(0::int) \<le> 2" and h2: "(0::int) \<le> 1" by simp_all
  from identifiers_consecutive[OF h1 h2 h3 h5, THEN conjunct1] h3 h4 u
  show ?thesis by simp
qed





lemma first_negative_split:
  assumes "i < length ds" "ds ! i < (0::real)" "\<forall>j<i. 0 \<le> ds ! j"
  shows "takeWhile (\<lambda>d. 0 \<le> d) ds = take i ds"
    and "dropWhile (\<lambda>d. 0 \<le> d) ds = ds ! i # drop (Suc i) ds"
proof -
  show t: "takeWhile (\<lambda>d. 0 \<le> d) ds = take i ds"
    using assms by (intro takeWhile_eq_take_P_nth) auto
  have "dropWhile (\<lambda>d. 0 \<le> d) ds = drop (length (takeWhile (\<lambda>d. 0 \<le> d) ds)) ds"
    by (rule dropWhile_eq_drop)
  also have "\<dots> = drop i ds" using t assms(1) by simp
  also have "\<dots> = ds ! i # drop (Suc i) ds"
    using assms(1) by (simp add: Cons_nth_drop_Suc)
  finally show "dropWhile (\<lambda>d. 0 \<le> d) ds = ds ! i # drop (Suc i) ds" .
qed

text \<open>
  Claim C5. Let the delays that the sampler returns on its successive calls after the
  shuffle be \<open>ds\<close>, and let the call number \<open>i\<close> (from 0) be the first to return a
  negative delay. Then the run of a constructed generator ends there with the
  \<open>ValueError\<close> that SimPy's \<open>Timeout\<close> raises for that delay: exactly the \<open>i\<close>
  vehicles before it are registered and none after, the delays waited for are the \<open>i\<close>
  delays before it, all non-negative, and the clock has advanced by their sum only.
\<close>

theorem negative_delay_aborts_run:
  assumes "CustomVehicleGenerator_init cfg e p c l (Some f) (Some n) (Some m) = Inr g"
    and "CustomVehicleGenerator_run g w = (out, g', w')"
    and "ds = sampled f (snd (shuffle (rand w) (plan n m))) (nat n + nat m)"
    and "i < length ds" and "ds ! i < 0" and "\<forall>j<i. 0 \<le> ds ! j"
  shows "out = Some (ValueError (ds ! i))
     \<and> length (spawned w w') = i
     \<and> delays w w' = take i ds
     \<and> (\<forall>d\<in>set (delays w w'). 0 \<le> d)
     \<and> now w' = now w + sum_list (take i ds)
     \<and> next_id g' = int i"
proof -
  from assms(1) have nc: "normal_count g = Some n" and ec: "ev_count g = Some m"
    and sf: "interarrival_func g = Some f" and id0: "next_id g = 0"
    by (simp_all add: init_eq)
  note sp = first_negative_split[OF assms(4,5,6)]
  have o: "out = Some (ValueError (ds ! i))"
    using run_delays(2)[OF nc ec sf assms(2)] sp(2) by (simp add: assms(3)[symmetric])
  have dl: "delays w w' = take i ds"
    using run_delays(1)[OF nc ec sf assms(2)] sp(1) by (simp add: assms(3)[symmetric])
  from run_inv[OF nc ec assms(2)] obtain ds' where
    g': "g' = g\<lparr>next_id := next_id g + int (length ds')\<rparr>"
    and nn: "\<forall>d\<in>set ds'. 0 \<le> d"
    and to: "timeouts w' = timeouts w @ ds'"
    and nw: "now w' = now w + sum_list ds'"
    and st: "started w' = started w @
          map (\<lambda>i. (now w + sum_list (take (Suc i) ds'),
                    Vehicle (next_id g + int i) (fst (shuffle (rand w) (plan n m)) ! i) (env g)
                      (parking_res g) (charger_res g) (logger g)))
            [0..<length ds']"
    by auto
  have ds': "ds' = take i ds" using delays_append[OF to] dl by simp
  have li: "length ds' = i" using ds' assms(4) by simp
  have "length (spawned w w') = i" unfolding spawned_append[OF st] by (simp add: li)
  moreover have "\<forall>d\<in>set (delays w w'). 0 \<le> d" using nn dl ds' by simp
  moreover have "now w' = now w + sum_list (take i ds)" using nw ds' by simp
  moreover have "next_id g' = int i" using g' id0 li by simp
  ultimately show ?thesis using o dl by simp
qed

theorem negative_delay_aborts_run_witness:
  "CustomVehicleGenerator_init config0 () () () () (Some falling_sampler) (Some 2) (Some 1)
       = Inr (gen0 falling_sampler 2 1)
   \<and> sampled falling_sampler (snd (shuffle (rand world0) (plan 2 1))) (nat 2 + nat 1) = [1, 0, - 1]
   \<and> fst (CustomVehicleGenerator_run (gen0 falling_sampler 2 1) world0) = Some (ValueError (- 1))
   \<and> length (spawned world0 (snd (snd (CustomVehicleGenerator_run (gen0 falling_sampler 2 1) world0)))) = 2
   \<and> delays world0 (snd (snd (CustomVehicleGenerator_run (gen0 falling_sampler 2 1) world0))) = [1, 0]
   \<and> now (snd (snd (CustomVehicleGenerator_run (gen0 falling_sampler 2 1) world0))) = 1"
proof -
  let ?g = "gen0 falling_sampler 2 1"
  let ?r = "CustomVehicleGenerator_run ?g world0"
  let ?ds = "sampled falling_sampler (snd (shuffle (rand world0) (plan 2 1))) (nat 2 + nat 1)"
  have h1: "CustomVehicleGenerator_init config0 () () () () (Some falling_sampler) (Some 2) (Some 1)
       = Inr ?g" by (simp add: init_eq gen0_def)
  have h2: "?r = (fst ?r, fst (snd ?r), snd (snd ?r))" by simp
  have h3: "?ds = [1, 0, - 1]" by code_simp
  have h4: "2 < length ?ds" "?ds ! 2 < 0" "\<forall>j<2. 0 \<le> ?ds ! j"
    unfolding h3 by (simp_all add: less_Suc_eq numeral_2_eq_2)
  from negative_delay_aborts_run[OF h1 h2 refl h4] h1 h3
  show ?thesis by (simp add: world0_def)
qed


lemma map_nth_take: "k \<le> length xs \<Longrightarrow> map ((!) xs) [0..<k] = take k xs"
  by (rule nth_equalityI) auto







lemma loop_rand_agree:
  fixes g1 :: "('e1, 'p1, 'l1) gen" and w1 :: "('e1, 'p1, 'l1) world"
    and g2 :: "('e2, 'p2, 'l2) gen" and w2 :: "('e2, 'p2, 'l2) world"
  shows "interarrival_func g1 = interarrival_func g2 \<Longrightarrow> rand w1 = rand w2 \<Longrightarrow>
   rand (snd (snd (CustomVehicleGenerator_run_loop g1 w1 ts)))
     = rand (snd (snd (CustomVehicleGenerator_run_loop g2 w2 ts)))"
proof (induction ts arbitrary: g1 w1 g2 w2)
  case Nil
  then show ?case by simp
next
  case (Cons t ts)
  show ?case
  proof (cases "interarrival_func g1")
    case None
    then have "interarrival_func g2 = None" using Cons.prems(1) by simp
    show ?thesis
      unfolding loop_step_noattr[OF None] loop_step_noattr[OF \<open>interarrival_func g2 = None\<close>]
      using Cons.prems(2) by simp
  next
    case (Some f)
    then have f2: "interarrival_func g2 = Some f" using Cons.prems(1) by simp
    obtain d r' where fr: "f (rand w1) = (d, r')" by (cases "f (rand w1)")
    then have fr2: "f (rand w2) = (d, r')" using Cons.prems(2) by simp
    show ?thesis
    proof (cases "d < 0")
      case True
      show ?thesis
        unfolding loop_step_neg[OF Some fr True] loop_step_neg[OF f2 fr2 True] by simp
    next
      case False
      then have d: "0 \<le> d" by simp
      show ?thesis
        unfolding loop_step_ok[OF Some fr d] loop_step_ok[OF f2 fr2 d]
        by (rule Cons.IH) (simp_all add: Some f2)
    qed
  qed
qed

lemma run_types_take:
  assumes "normal_count g = Some n" "ev_count g = Some m"
    and "CustomVehicleGenerator_run g w = (out, g', w')"
  shows "map (vtype \<circ> snd) (spawned w w')
           = take (length (delays w w')) (fst (shuffle (rand w) (plan n m)))"
    and "map (vid \<circ> snd) (spawned w w')
           = map (\<lambda>i. next_id g + int i) [0..<length (delays w w')]"
    and "next_id g' = next_id g + int (length (delays w w'))"
proof -
  define ts where "ts = fst (shuffle (rand w) (plan n m))"
  from run_inv[OF assms] obtain ds where
    len: "length ds \<le> length ts"
    and g': "g' = g\<lparr>next_id := next_id g + int (length ds)\<rparr>"
    and to: "timeouts w' = timeouts w @ ds"
    and st: "started w' = started w @
          map (\<lambda>i. (now w + sum_list (take (Suc i) ds),
                    Vehicle (next_id g + int i) (ts ! i) (env g) (parking_res g) (charger_res g) (logger g)))
            [0..<length ds]"
    unfolding ts_def by auto
  note d = delays_append[OF to]
  have "map (vtype \<circ> snd) (spawned w w') = map ((!) ts) [0..<length ds]"
    unfolding spawned_append[OF st] by (simp add: Vehicle_def comp_def)
  also have "\<dots> = take (length ds) ts" using len by (rule map_nth_take)
  finally show "map (vtype \<circ> snd) (spawned w w')
           = take (length (delays w w')) (fst (shuffle (rand w) (plan n m)))"
    by (simp add: d ts_def)
  show "map (vid \<circ> snd) (spawned w w')
           = map (\<lambda>i. next_id g + int i) [0..<length (delays w w')]"
    unfolding spawned_append[OF st] d by (simp add: Vehicle_def comp_def)
  show "next_id g' = next_id g + int (length (delays w w'))"
    using g' by (simp add: d)
qed

text \<open>
  Claim C10. Two generators constructed with the same counts and the same sampler
  (whatever their environment, resources and logger), run from worlds with the same
  random state (whatever their clocks and histories), end the same way, with the
  same sequence of vehicle types, the same sequence of delays, the same identifiers,
  and leave the random state the same: nothing but the counts, the sampler and the
  random state decides the plan and the delays.
\<close>

theorem run_deterministic:
  fixes g1 :: "('e1, 'p1, 'l1) gen" and w1 :: "('e1, 'p1, 'l1) world"
    and g2 :: "('e2, 'p2, 'l2) gen" and w2 :: "('e2, 'p2, 'l2) world"
  assumes "CustomVehicleGenerator_init cfg e1 p1 c1 l1 f (Some n) (Some m) = Inr g1"
    and "CustomVehicleGenerator_init cfg e2 p2 c2 l2 f (Some n) (Some m) = Inr g2"
    and "rand w1 = rand w2"
    and "CustomVehicleGenerator_run g1 w1 = (out1, g1', w1')"
    and "CustomVehicleGenerator_run g2 w2 = (out2, g2', w2')"
  shows "out1 = out2
     \<and> map (vtype \<circ> snd) (spawned w1 w1') = map (vtype \<circ> snd) (spawned w2 w2')
     \<and> delays w1 w1' = delays w2 w2'
     \<and> map (vid \<circ> snd) (spawned w1 w1') = map (vid \<circ> snd) (spawned w2 w2')
     \<and> next_id g1' = next_id g2'
     \<and> rand w1' = rand w2'"
proof -
  let ?f = "case f of Some h \<Rightarrow> h | None \<Rightarrow> sample_interarrival cfg"
  from assms(1) have nc1: "normal_count g1 = Some n" and ec1: "ev_count g1 = Some m"
    and sf1: "interarrival_func g1 = Some ?f" and id1: "next_id g1 = 0"
    by (simp_all add: init_eq)
  from assms(2) have nc2: "normal_count g2 = Some n" and ec2: "ev_count g2 = Some m"
    and sf2: "interarrival_func g2 = Some ?f" and id2: "next_id g2 = 0"
    by (simp_all add: init_eq)
  have o: "out1 = out2"
    using run_delays(2)[OF nc1 ec1 sf1 assms(4)] run_delays(2)[OF nc2 ec2 sf2 assms(5)] assms(3)
    by simp
  have d: "delays w1 w1' = delays w2 w2'"
    using run_delays(1)[OF nc1 ec1 sf1 assms(4)] run_delays(1)[OF nc2 ec2 sf2 assms(5)] assms(3)
    by simp
  note t1 = run_types_take[OF nc1 ec1 assms(4)] and t2 = run_types_take[OF nc2 ec2 assms(5)]
  have ty: "map (vtype \<circ> snd) (spawned w1 w1') = map (vtype \<circ> snd) (spawned w2 w2')"
    unfolding t1(1) t2(1) by (simp add: d assms(3))
  have ids: "map (vid \<circ> snd) (spawned w1 w1') = map (vid \<circ> snd) (spawned w2 w2')"
    unfolding t1(2) t2(2) by (simp add: d id1 id2)
  have nid: "next_id g1' = next_id g2'"
    unfolding t1(3) t2(3) by (simp add: d id1 id2)
  have "rand (snd (snd (CustomVehicleGenerator_run g1 w1)))
          = rand (snd (snd (CustomVehicleGenerator_run g2 w2)))"
    unfolding run_unfold[OF nc1 ec1] run_unfold[OF nc2 ec2] assms(3)
    by (rule loop_rand_agree) (simp_all add: sf1 sf2)
  then have r: "rand w1' = rand w2'" using assms(4,5) by simp
  from o ty d ids nid r show ?thesis by simp
qed


theorem run_deterministic_witness:
  "CustomVehicleGenerator_init config0 () () () () (Some falling_sampler) (Some 2) (Some 1)
       = Inr (gen0 falling_sampler 2 1)
   \<and> rand world0 = rand (world0\<lparr>now := 5\<rparr>)
   \<and> fst (CustomVehicleGenerator_run (gen0 falling_sampler 2 1) world0)
       = fst (CustomVehicleGenerator_run (gen0 falling_sampler 2 1) (world0\<lparr>now := 5\<rparr>))
   \<and> map (vtype \<circ> snd)
         (spawned world0 (snd (snd (CustomVehicleGenerator_run (gen0 falling_sampler 2 1) world0))))
       = map (vtype \<circ> snd)
         (spawned (world0\<lparr>now := 5\<rparr>)
            (snd (snd (CustomVehicleGenerator_run (gen0 falling_sampler 2 1) (world0\<lparr>now := 5\<rparr>)))))
   \<and> delays world0 (snd (snd (CustomVehicleGenerator_run (gen0 falling_sampler 2 1) world0)))
       = delays (world0\<lparr>now := 5\<rparr>)
           (snd (snd (CustomVehicleGenerator_run (gen0 falling_sampler 2 1) (world0\<lparr>now := 5\<rparr>))))
   \<and> delays world0 (snd (snd (CustomVehicleGenerator_run (gen0 falling_sampler 2 1) world0))) = [1, 0]"
proof -
  let ?g = "gen0 falling_sampler 2 1"
  let ?w2 = "world0\<lparr>now := 5\<rparr>"
  let ?r1 = "CustomVehicleGenerator_run ?g world0"
  let ?r2 = "CustomVehicleGenerator_run ?g ?w2"
  have h1: "CustomVehicleGenerator_init config0 () () () () (Some falling_sampler) (Some 2) (Some 1)
       = Inr ?g" by (simp add: init_eq gen0_def)
  have h3: "rand world0 = rand ?w2" by simp
  have h4: "?r1 = (fst ?r1, fst (snd ?r1), snd (snd ?r1))" by simp
  have h5: "?r2 = (fst ?r2, fst (snd ?r2), snd (snd ?r2))" by simp
  have v: "delays world0 (snd (snd ?r1)) = [1, 0]" by code_simp
  from run_deterministic[OF h1 h1 h3 h4 h5] h1 v show ?thesis by simp
qed

lemma rename_generate_vehicle:
  "generate_vehicle (rename_gen fe fp fl g) (rename_world fe fp fl w) t
     = map_prod (rename_gen fe fp fl) (rename_world fe fp fl) (generate_vehicle g w t)"
  by (simp add: generate_vehicle_eq rename_gen_def rename_world_def rename_vehicle_def Vehicle_def)

lemma rename_world_rand_update:
  "rename_world fe fp fl (w\<lparr>rand := r\<rparr>) = (rename_world fe fp fl w)\<lparr>rand := r\<rparr>"
  by (simp add: rename_world_def)

lemma rename_env_timeout:
  "env_timeout (rename_world fe fp fl w) d = map_sum id (rename_world fe fp fl) (env_timeout w d)"
  by (simp add: env_timeout_def rename_world_def)

lemma rename_loop:
  "CustomVehicleGenerator_run_loop (rename_gen fe fp fl g) (rename_world fe fp fl w) ts
     = map_prod id (map_prod (rename_gen fe fp fl) (rename_world fe fp fl))
         (CustomVehicleGenerator_run_loop g w ts)"
proof (induction ts arbitrary: g w)
  case Nil
  then show ?case by simp
next
  case (Cons t ts)
  have sf: "interarrival_func (rename_gen fe fp fl g) = interarrival_func g"
    and rw: "rand (rename_world fe fp fl w) = rand w"
    by (simp_all add: rename_gen_def rename_world_def)
  show ?case
  proof (cases "interarrival_func g")
    case None
    then show ?thesis by (simp add: sf)
  next
    case (Some f)
    obtain d r' where fr: "f (rand w) = (d, r')" by (cases "f (rand w)")
    show ?thesis
    proof (cases "env_timeout (w\<lparr>rand := r'\<rparr>) d")
      case (Inl err)
      then show ?thesis
        using Some fr
        by (simp add: sf rw rename_world_rand_update[symmetric] rename_env_timeout)
    next
      case (Inr w1)
      obtain g2 w2 where gv: "generate_vehicle g w1 t = (g2, w2)"
        by (cases "generate_vehicle g w1 t")
      then have gv': "generate_vehicle (rename_gen fe fp fl g) (rename_world fe fp fl w1) t
          = (rename_gen fe fp fl g2, rename_world fe fp fl w2)"
        by (simp add: rename_generate_vehicle)
      show ?thesis
        using Some fr Inr gv gv' Cons.IH[of g2 w2]
        by (simp add: sf rw rename_world_rand_update[symmetric] rename_env_timeout)
    qed
  qed
qed

lemma rename_run:
  "CustomVehicleGenerator_run (rename_gen fe fp fl g) (rename_world fe fp fl w)
     = map_prod id (map_prod (rename_gen fe fp fl) (rename_world fe fp fl))
         (CustomVehicleGenerator_run g w)"
proof -
  have a: "normal_count (rename_gen fe fp fl g) = normal_count g"
    "ev_count (rename_gen fe fp fl g) = ev_count g"
    "rand (rename_world fe fp fl w) = rand w"
    by (simp_all add: rename_gen_def rename_world_def)
  show ?thesis
    unfolding CustomVehicleGenerator_run_def a
    by (simp add: rename_world_rand_update[symmetric] rename_loop
          split: option.split prod.split)
qed

lemma rename_run_ops:
  "run_ops (rename_gen fe fp fl g) (rename_world fe fp fl w) ops
     = map_prod (rename_gen fe fp fl) (rename_world fe fp fl) (run_ops g w ops)"
proof (induction ops arbitrary: g w)
  case Nil
  then show ?case by simp
next
  case (Cons a ops)
  show ?case
  proof (cases a)
    case (Spawn t)
    then show ?thesis
      by (simp add: rename_generate_vehicle Cons.IH split: prod.split)
  next
    case Run
    then show ?thesis
      by (simp add: rename_run Cons.IH split: prod.split)
  qed
qed

lemma loop_frame:
  assumes "CustomVehicleGenerator_run_loop g w ts = (out, g', w')"
  shows "g' = g\<lparr>next_id := next_id g'\<rparr>
     \<and> (\<exists>new. started w' = started w @ new \<and> (\<forall>x\<in>set new. passed_through g (snd x)))"
proof -
  from loop_inv[OF assms] obtain ds where
    g': "g' = g\<lparr>next_id := next_id g + int (length ds)\<rparr>"
    and st: "started w' = started w @
          map (\<lambda>i. (now w + sum_list (take (Suc i) ds),
                    Vehicle (next_id g + int i) (ts ! i) (env g) (parking_res g) (charger_res g) (logger g)))
            [0..<length ds]"
    by auto
  have "g' = g\<lparr>next_id := next_id g'\<rparr>" using g' by simp
  moreover have "\<forall>x\<in>set (map (\<lambda>i. (now w + sum_list (take (Suc i) ds),
                    Vehicle (next_id g + int i) (ts ! i) (env g) (parking_res g) (charger_res g) (logger g)))
            [0..<length ds]). passed_through g (snd x)"
    by (simp add: passed_through_def Vehicle_def)
  ultimately show ?thesis using st by blast
qed

lemma run_frame:
  assumes "CustomVehicleGenerator_run g w = (out, g', w')"
  shows "g' = g\<lparr>next_id := next_id g'\<rparr>
     \<and> (\<exists>new. started w' = started w @ new \<and> (\<forall>x\<in>set new. passed_through g (snd x)))"
proof (cases "normal_count g")
  case None
  with assms show ?thesis by (simp add: CustomVehicleGenerator_run_def)
next
  case (Some n)
  show ?thesis
  proof (cases "ev_count g")
    case None
    with assms Some show ?thesis by (simp add: CustomVehicleGenerator_run_def)
  next
    case m: (Some m)
    from assms have "CustomVehicleGenerator_run_loop g
        (w\<lparr>rand := snd (shuffle (rand w) (plan n m))\<rparr>) (fst (shuffle (rand w) (plan n m)))
        = (out, g', w')"
      by (simp add: run_unfold[OF Some m])
    from loop_frame[OF this] show ?thesis by simp
  qed
qed

lemma generate_vehicle_frame:
  assumes "generate_vehicle g w t = (g', w')"
  shows "g' = g\<lparr>next_id := next_id g'\<rparr>
     \<and> (\<exists>new. started w' = started w @ new \<and> (\<forall>x\<in>set new. passed_through g (snd x)))"
  using assms by (auto simp: generate_vehicle_eq passed_through_def Vehicle_def)

lemma passed_through_next_id:
  "passed_through (g\<lparr>next_id := k\<rparr>) v = passed_through g v"
  by (simp add: passed_through_def)

lemma frame_compose:
  assumes "g1 = g\<lparr>next_id := next_id g1\<rparr>"
    and "started w1 = started w @ new1" and "\<forall>x\<in>set new1. passed_through g (snd x)"
    and "g2 = g1\<lparr>next_id := next_id g2\<rparr>
     \<and> (\<exists>new. started w2 = started w1 @ new \<and> (\<forall>x\<in>set new. passed_through g1 (snd x)))"
  shows "g2 = g\<lparr>next_id := next_id g2\<rparr>
     \<and> (\<exists>new. started w2 = started w @ new \<and> (\<forall>x\<in>set new. passed_through g (snd x)))"
proof -
  from assms(4) obtain new2 where
    g2: "g2 = g1\<lparr>next_id := next_id g2\<rparr>" and s2: "started w2 = started w1 @ new2"
    and p2: "\<forall>x\<in>set new2. passed_through g1 (snd x)" by blast
  have "g2 = g\<lparr>next_id := next_id g2\<rparr>"
    by (subst g2, subst assms(1)) simp
  moreover have "\<forall>x\<in>set new2. passed_through g (snd x)"
    using p2 by (subst (asm) assms(1)) (simp add: passed_through_next_id)
  then have "\<forall>x\<in>set (new1 @ new2). passed_through g (snd x)" using assms(3) by auto
  moreover have "started w2 = started w @ (new1 @ new2)" using s2 assms(2) by simp
  ultimately show ?thesis by blast
qed

lemma run_ops_frame:
  "run_ops g w ops = (g', w') \<Longrightarrow>
   g' = g\<lparr>next_id := next_id g'\<rparr>
     \<and> (\<exists>new. started w' = started w @ new \<and> (\<forall>x\<in>set new. passed_through g (snd x)))"
proof (induction ops arbitrary: g w)
  case Nil
  then show ?case by simp
next
  case (Cons a ops)
  show ?case
  proof (cases a)
    case (Spawn t)
    obtain g1 w1 where s: "generate_vehicle g w t = (g1, w1)"
      by (cases "generate_vehicle g w t")
    with Cons.prems Spawn have r: "run_ops g1 w1 ops = (g', w')" by simp
    from generate_vehicle_frame[OF s] obtain new1 where
      "g1 = g\<lparr>next_id := next_id g1\<rparr>" "started w1 = started w @ new1"
      "\<forall>x\<in>set new1. passed_through g (snd x)" by blast
    then show ?thesis using Cons.IH[OF r] by (rule frame_compose)
  next
    case Run
    obtain out g1 w1 where s: "CustomVehicleGenerator_run g w = (out, g1, w1)"
      by (cases "CustomVehicleGenerator_run g w") auto
    with Cons.prems Run have r: "run_ops g1 w1 ops = (g', w')" by simp
    from run_frame[OF s] obtain new1 where
      "g1 = g\<lparr>next_id := next_id g1\<rparr>" "started w1 = started w @ new1"
      "\<forall>x\<in>set new1. passed_through g (snd x)" by blast
    then show ?thesis using Cons.IH[OF r] by (rule frame_compose)
  qed
qed

text \<open>
  Claim C9. After any sequence of direct calls of \<open>generate_vehicle\<close> and of runs on a
  generator, the generator differs from what it was in \<open>next_id\<close> at most: its
  environment, its two resources and its logger are the same. Every vehicle
  registered in between carries exactly these four handles. The generator never
  looks into them: replacing the handles by any others, in the generator and in the
  world, replaces them in the result and changes nothing else.
\<close>

theorem handles_passed_through_unchanged:
  assumes "run_ops g w ops = (g', w')"
  shows "env g' = env g \<and> parking_res g' = parking_res g
     \<and> charger_res g' = charger_res g \<and> logger g' = logger g
     \<and> g' = g\<lparr>next_id := next_id g'\<rparr>
     \<and> (\<forall>x\<in>set (spawned w w'). passed_through g (snd x))
     \<and> run_ops (rename_gen fe fp fl g) (rename_world fe fp fl w) ops
         = (rename_gen fe fp fl g', rename_world fe fp fl w')"
proof -
  from run_ops_frame[OF assms] obtain new where
    g': "g' = g\<lparr>next_id := next_id g'\<rparr>"
    and st: "started w' = started w @ new"
    and p: "\<forall>x\<in>set new. passed_through g (snd x)" by blast
  have f: "env g' = env g \<and> parking_res g' = parking_res g
     \<and> charger_res g' = charger_res g \<and> logger g' = logger g"
    by (subst g', simp)+
  have s: "\<forall>x\<in>set (spawned w w'). passed_through g (snd x)"
    using p by (simp add: spawned_append[OF st])
  have r: "run_ops (rename_gen fe fp fl g) (rename_world fe fp fl w) ops
         = (rename_gen fe fp fl g', rename_world fe fp fl w')"
    by (simp add: rename_run_ops assms)
  from f g' s r show ?thesis by blast
qed


theorem handles_passed_through_unchanged_witness:
  "run_ops gen1 world1 [Spawn ''ev'', Run, Spawn ''normal'']
     = (fst (run_ops gen1 world1 [Spawn ''ev'', Run, Spawn ''normal'']),
        snd (run_ops gen1 world1 [Spawn ''ev'', Run, Spawn ''normal'']))
   \<and> env (fst (run_ops gen1 world1 [Spawn ''ev'', Run, Spawn ''normal''])) = 1
   \<and> parking_res (fst (run_ops gen1 world1 [Spawn ''ev'', Run, Spawn ''normal''])) = 2
   \<and> charger_res (fst (run_ops gen1 world1 [Spawn ''ev'', Run, Spawn ''normal''])) = 3
   \<and> logger (fst (run_ops gen1 world1 [Spawn ''ev'', Run, Spawn ''normal''])) = 4
   \<and> next_id (fst (run_ops gen1 world1 [Spawn ''ev'', Run, Spawn ''normal''])) = 4
   \<and> list_all (\<lambda>x. passed_through gen1 (snd x))
         (spawned world1 (snd (run_ops gen1 world1 [Spawn ''ev'', Run, Spawn ''normal''])))
   \<and> map (\<lambda>x. (vid (snd x), v_env (snd x), v_parking_res (snd x), v_charger_res (snd x),
                 v_logger (snd x)))
        (spawned world1 (snd (run_ops gen1 world1 [Spawn ''ev'', Run, Spawn ''normal''])))
       = [(0, 1, 2, 3, 4), (1, 1, 2, 3, 4), (2, 1, 2, 3, 4), (3, 1, 2, 3, 4)]"
proof -
  let ?ops = "[Spawn ''ev'', Run, Spawn ''normal'']"
  let ?r = "run_ops gen1 world1 ?ops"
  have h: "?r = (fst ?r, snd ?r)" by simp
  have e: "env gen1 = 1" "parking_res gen1 = 2" "charger_res gen1 = 3" "logger gen1 = 4"
    by (simp_all add: gen1_def)
  have n: "next_id (fst ?r) = 4" by code_simp
  have v: "map (\<lambda>x. (vid (snd x), v_env (snd x), v_parking_res (snd x), v_charger_res (snd x),
                 v_logger (snd x))) (spawned world1 (snd ?r))
       = [(0, 1, 2, 3, 4), (1, 1, 2, 3, 4), (2, 1, 2, 3, 4), (3, 1, 2, 3, 4)]" by code_simp
  note t = handles_passed_through_unchanged[OF h, of id id id]
  from t have f: "env (fst ?r) = 1 \<and> parking_res (fst ?r) = 2
      \<and> charger_res (fst ?r) = 3 \<and> logger (fst ?r) = 4"
    unfolding e by blast
  from t have "\<forall>x\<in>set (spawned world1 (snd ?r)). passed_through gen1 (snd x)"
    by blast
  then have p: "list_all (\<lambda>x. passed_through gen1 (snd x)) (spawned world1 (snd ?r))"
    by (simp only: list_all_iff)
  from h f n p v show ?thesis by blast
qed

end
